theory Spec2Isabelle
  imports Complex_Main "HOL-Library.Multiset"
begin

section \<open>Study tracker: the request handlers of app.py\<close>

text \<open>
  The development follows \<^verbatim>\<open>src/src/app.py\<close>. The older \<^verbatim>\<open>src/app.py\<close> has the same
  models and the same handlers \<^verbatim>\<open>login\<close>, \<^verbatim>\<open>verify\<close>, \<^verbatim>\<open>index\<close>, \<^verbatim>\<open>delete\<close> and
  \<^verbatim>\<open>logout\<close>, line for line; it lacks \<^verbatim>\<open>stats\<close> only.

  The two tables are lists of rows in insertion order, the signed client session is a
  record, every handler takes the request, the environment (random generator, clocks) and
  the state, and returns the response with the new state. An aborted request (400, 404,
  405, 500) is a response of its own and leaves the state as it was: nothing was committed.
\<close>

subsection \<open>Dates and times\<close>

text \<open>
  A \<^verbatim>\<open>date\<close> is its proleptic Gregorian ordinal, as \<^verbatim>\<open>date.toordinal()\<close> gives it:
  day 1 is 0001-01-01, a Monday, and \<^verbatim>\<open>date.max\<close> is day 3652059. A naive
  \<^verbatim>\<open>datetime\<close> is the number of microseconds since 0001-01-01T00:00:00.
\<close>

type_synonym date = int
type_synonym datetime = int

datatype py_error = OverflowError

definition usec_per_day :: int where
  "usec_per_day = 86400000000"

definition min_ordinal :: date where
  "min_ordinal = 1"

definition max_ordinal :: date where
  "max_ordinal = 3652059"

definition weekday :: "date \<Rightarrow> nat" where
  \<comment> \<open>\<^verbatim>\<open>date.weekday()\<close> is \<^verbatim>\<open>(self.toordinal() + 6) % 7\<close>: 0 for Monday.\<close>
  "weekday d = nat ((d + 6) mod 7)"

definition date_of :: "datetime \<Rightarrow> date" where
  \<comment> \<open>\<^verbatim>\<open>datetime.date()\<close>\<close>
  "date_of t = t div usec_per_day + 1"

definition midnight :: "date \<Rightarrow> datetime" where
  \<comment> \<open>a date compared with a DateTime column is bound as that day at 00:00:00\<close>
  "midnight d = (d - 1) * usec_per_day"

definition end_of_day :: "date \<Rightarrow> datetime" where
  \<comment> \<open>\<^verbatim>\<open>datetime.combine(d, datetime.max.time())\<close>: 23:59:59.999999 of that day\<close>
  "end_of_day d = midnight d + (usec_per_day - 1)"

definition date_plus_days :: "date \<Rightarrow> int \<Rightarrow> py_error + date" where
  \<comment> \<open>\<^verbatim>\<open>d + timedelta(days=n)\<close>; a result outside date.min .. date.max raises\<close>
  "date_plus_days d n =
     (if min_ordinal \<le> d + n \<and> d + n \<le> max_ordinal then Inr (d + n) else Inl OverflowError)"

subsection \<open>Numbers and strings\<close>

definition digit_char :: "nat \<Rightarrow> char" where
  "digit_char d = ''0123456789'' ! d"

fun str_nat :: "nat \<Rightarrow> string" where
  "str_nat n = (if n < 10 then [digit_char n] else str_nat (n div 10) @ [digit_char (n mod 10)])"

declare str_nat.simps [simp del]

definition str_int :: "int \<Rightarrow> string" where
  \<comment> \<open>Python's \<^verbatim>\<open>str\<close> of an int\<close>
  "str_int i = (if i < 0 then CHR ''-'' # str_nat (nat (- i)) else str_nat (nat i))"

definition randint :: "int \<Rightarrow> int \<Rightarrow> nat \<Rightarrow> int" where
  \<comment> \<open>\<^verbatim>\<open>random.randint(a, b)\<close> returns some N with a <= N <= b; which one is decided by
      the generator's state, given here as the natural number r.\<close>
  "randint a b r = a + int (r mod nat (b - a + 1))"

subsection \<open>The data model\<close>

record user =
  u_id :: nat
  email :: string
  current_otp :: "string option"

text \<open>
  The column \<^verbatim>\<open>hours\<close> is a Float. Hours are modelled as real numbers: sums are exact,
  the rounding of floating-point addition is not part of this model.
\<close>

record study_session =
  s_id :: nat
  subject :: string
  hours :: real
  date :: datetime
  user_id :: nat

record database =
  users :: "user list"
  study_sessions :: "study_session list"

text \<open>
  The client session holds what the handlers keep in Flask's \<^verbatim>\<open>session\<close>: the pending
  email, the id of the logged-in user (set by \<^verbatim>\<open>login_user\<close>, removed by
  \<^verbatim>\<open>logout_user\<close>) and the flashed messages.
\<close>

record state =
  db :: database
  pending_email :: "string option"
  session_user_id :: "nat option"
  flashes :: "string list"

text \<open>
  What a request reads from outside: the random generator, the two clocks
  (\<^verbatim>\<open>datetime.utcnow()\<close> for a new row, \<^verbatim>\<open>datetime.now().date()\<close> in the statistics),
  and the conversion of the submitted text to a Float by the database layer, which is
  not code of this repository (\<^verbatim>\<open>None\<close>: the text is refused and the request fails).
\<close>

record env =
  rnd :: nat
  utcnow :: datetime
  today :: date
  float_of :: "string \<Rightarrow> real option"

datatype http_method = GET | POST

record request =
  req_method :: http_method
  form :: "(string \<times> string) list"

record stats_page =
  daily_labels :: "string list"
  daily_values :: "real list"
  weekly_labels :: "(date \<times> date) list"
  weekly_values :: "real list"
  subject_labels :: "string list"
  subject_values :: "real list"

datatype response =
    Redirect string
  | Render_login
  | Render_verify
  | Render_index "study_session list" real user
  | Render_stats user stats_page
  | Abort nat

datatype route = Login | Verify | Index | Stats | Delete nat | Logout

subsection \<open>Queries\<close>

definition next_id :: "nat list \<Rightarrow> nat" where
  \<comment> \<open>an integer primary key left out of an insert is one more than the largest in the table\<close>
  "next_id ids = Suc (fold max ids 0)"

definition filter_by_email :: "string option \<Rightarrow> user list \<Rightarrow> user option" where
  \<comment> \<open>\<^verbatim>\<open>User.query.filter_by(email=e).first()\<close>; \<^verbatim>\<open>email=None\<close> asks for a NULL email,
      which the non-nullable column never holds\<close>
  "filter_by_email e us = find (\<lambda>u. Some (email u) = e) us"

definition load_user :: "nat \<Rightarrow> database \<Rightarrow> user option" where
  "load_user i d = find (\<lambda>u. u_id u = i) (users d)"

definition current_user :: "state \<Rightarrow> user option" where
  "current_user st =
     (case session_user_id st of None \<Rightarrow> None | Some i \<Rightarrow> load_user i (db st))"

definition set_otp :: "nat \<Rightarrow> string option \<Rightarrow> user list \<Rightarrow> user list" where
  \<comment> \<open>\<^verbatim>\<open>user.current_otp = v; db.session.commit()\<close>: the row with that primary key\<close>
  "set_otp i v us = map (\<lambda>u. if u_id u = i then u\<lparr>current_otp := v\<rparr> else u) us"

definition sessions_of :: "nat \<Rightarrow> database \<Rightarrow> study_session list" where
  \<comment> \<open>\<^verbatim>\<open>StudySession.query.filter_by(user_id=i).all()\<close>\<close>
  "sessions_of i d = filter (\<lambda>s. user_id s = i) (study_sessions d)"

definition order_by_date_desc :: "study_session list \<Rightarrow> study_session list" where
  "order_by_date_desc ss = sort_key (\<lambda>s. - date s) ss"

definition unauthorized :: "state \<Rightarrow> response \<times> state" where
  \<comment> \<open>what \<^verbatim>\<open>@login_required\<close> answers when nobody is logged in\<close>
  "unauthorized st =
     (Redirect ''login'', st\<lparr>flashes := flashes st @ [''Please log in to access this page.'']\<rparr>)"

subsection \<open>login and verify\<close>

definition login :: "request \<Rightarrow> env \<Rightarrow> state \<Rightarrow> response \<times> state" where
  "login req e st =
     (if req_method req = POST then
        (case map_of (form req) ''email'' of
           None \<Rightarrow> (Abort 400, st)
         | Some em \<Rightarrow>
             let us = users (db st);
                 (usr, us1) =
                   (case filter_by_email (Some em) us of
                      Some u \<Rightarrow> (u, us)
                    | None \<Rightarrow>
                        let u = \<lparr>u_id = next_id (map u_id us), email = em, current_otp = None\<rparr>
                        in (u, us @ [u]));
                 otp = str_int (randint 100000 999999 (rnd e));
                 us2 = set_otp (u_id usr) (Some otp) us1
             in (Redirect ''verify'',
                 st\<lparr>db := (db st)\<lparr>users := us2\<rparr>, pending_email := Some em\<rparr>))
      else (Render_login, st))"

definition verify :: "request \<Rightarrow> state \<Rightarrow> response \<times> state" where
  "verify req st =
     (if req_method req = POST then
        (case map_of (form req) ''otp'' of
           None \<Rightarrow> (Abort 400, st)
         | Some entered_otp \<Rightarrow>
             (case filter_by_email (pending_email st) (users (db st)) of
                Some usr \<Rightarrow>
                  if current_otp usr = Some entered_otp then
                    (Redirect ''index'',
                     st\<lparr>db := (db st)\<lparr>users := set_otp (u_id usr) None (users (db st))\<rparr>,
                        session_user_id := Some (u_id usr)\<rparr>)
                  else
                    (Render_verify, st\<lparr>flashes := flashes st @ [''Invalid OTP. Please try again.'']\<rparr>)
              | None \<Rightarrow>
                  (Render_verify, st\<lparr>flashes := flashes st @ [''Invalid OTP. Please try again.'']\<rparr>)))
      else (Render_verify, st))"

subsection \<open>index, delete, logout\<close>

definition index :: "request \<Rightarrow> env \<Rightarrow> state \<Rightarrow> response \<times> state" where
  "index req e st =
     (case current_user st of
        None \<Rightarrow> unauthorized st
      | Some cu \<Rightarrow>
          if req_method req = POST then
            (case map_of (form req) ''subject'' of
               None \<Rightarrow> (Abort 400, st)
             | Some subj \<Rightarrow>
                 (case map_of (form req) ''hours'' of
                    None \<Rightarrow> (Abort 400, st)
                  | Some hrs \<Rightarrow>
                      (case float_of e hrs of
                         None \<Rightarrow> (Abort 500, st)
                       | Some h \<Rightarrow>
                           let ss = study_sessions (db st);
                               new_session = \<lparr>s_id = next_id (map s_id ss), subject = subj,
                                              hours = h, date = utcnow e, user_id = u_id cu\<rparr>
                           in (Redirect ''/'',
                               st\<lparr>db := (db st)\<lparr>study_sessions := ss @ [new_session]\<rparr>\<rparr>))))
          else
            let sessions = order_by_date_desc (sessions_of (u_id cu) (db st));
                total_hours = sum_list (map hours sessions)
            in (Render_index sessions total_hours cu, st))"

definition delete :: "nat \<Rightarrow> state \<Rightarrow> response \<times> state" where
  "delete i st =
     (case current_user st of
        None \<Rightarrow> unauthorized st
      | Some cu \<Rightarrow>
          (case find (\<lambda>s. s_id s = i) (study_sessions (db st)) of
             None \<Rightarrow> (Abort 404, st)
           | Some session_to_delete \<Rightarrow>
               if user_id session_to_delete = u_id cu then
                 (Redirect ''/'',
                  st\<lparr>db := (db st)\<lparr>study_sessions :=
                        filter (\<lambda>s. s_id s \<noteq> i) (study_sessions (db st))\<rparr>\<rparr>)
               else (Redirect ''/'', st)))"

definition logout :: "state \<Rightarrow> response \<times> state" where
  "logout st =
     (case current_user st of
        None \<Rightarrow> unauthorized st
      | Some cu \<Rightarrow> (Redirect ''login'', st\<lparr>session_user_id := None\<rparr>))"

subsection \<open>stats\<close>

definition week_days :: "string list" where
  "week_days = [''Mon'', ''Tue'', ''Wed'', ''Thu'', ''Fri'', ''Sat'', ''Sun'']"

definition fill_buckets :: "study_session list \<Rightarrow> real list \<Rightarrow> real list" where
  \<comment> \<open>the loop \<^verbatim>\<open>daily_values[day_index] += session.hours\<close>\<close>
  "fill_buckets ss dv =
     fold (\<lambda>s dv. let day_index = weekday (date_of (date s))
                   in dv[day_index := dv ! day_index + hours s]) ss dv"

definition current_week_sessions :: "nat \<Rightarrow> date \<Rightarrow> database \<Rightarrow> study_session list" where
  "current_week_sessions i start_of_week d =
     filter (\<lambda>s. user_id s = i \<and> midnight start_of_week \<le> date s) (study_sessions d)"

definition week_sessions :: "nat \<Rightarrow> date \<Rightarrow> date \<Rightarrow> database \<Rightarrow> study_session list" where
  "week_sessions i week_start week_end d =
     filter (\<lambda>s. user_id s = i \<and> midnight week_start \<le> date s \<and> date s \<le> end_of_day week_end)
       (study_sessions d)"

fun dict_add :: "string \<Rightarrow> real \<Rightarrow> (string \<times> real) list \<Rightarrow> (string \<times> real) list" where
  \<comment> \<open>\<^verbatim>\<open>d[k] = d.get(k, 0) + h\<close> on a dict, which keeps its keys in insertion order\<close>
  "dict_add k h [] = [(k, 0 + h)]"
| "dict_add k h ((k', v) # d) = (if k' = k then (k', v + h) # d else (k', v) # dict_add k h d)"

definition subject_data :: "study_session list \<Rightarrow> (string \<times> real) list" where
  "subject_data ss = fold (\<lambda>s d. dict_add (subject s) (hours s) d) ss []"

fun weekly :: "nat \<Rightarrow> date \<Rightarrow> database \<Rightarrow> nat list \<Rightarrow> py_error + ((date \<times> date) \<times> real) list" where
  \<comment> \<open>the loop \<^verbatim>\<open>for i in range(4)\<close>; the label is kept as the two dates it is printed from\<close>
  "weekly uid start_of_week d [] = Inr []"
| "weekly uid start_of_week d (i # is) =
     (case date_plus_days start_of_week (- (7 * (3 - int i))) of
        Inl err \<Rightarrow> Inl err
      | Inr week_start \<Rightarrow>
          (case date_plus_days week_start 6 of
             Inl err \<Rightarrow> Inl err
           | Inr week_end \<Rightarrow>
               let week_total = sum_list (map hours (week_sessions uid week_start week_end d))
               in (case weekly uid start_of_week d is of
                     Inl err \<Rightarrow> Inl err
                   | Inr rest \<Rightarrow> Inr (((week_start, week_end), week_total) # rest))))"

definition stats :: "env \<Rightarrow> state \<Rightarrow> response \<times> state" where
  "stats e st =
     (case current_user st of
        None \<Rightarrow> unauthorized st
      | Some cu \<Rightarrow>
          (case date_plus_days (today e) (- int (weekday (today e))) of
             Inl err \<Rightarrow> (Abort 500, st)
           | Inr start_of_week \<Rightarrow>
               let dv = fill_buckets (current_week_sessions (u_id cu) start_of_week (db st))
                          (replicate 7 0)
               in (case weekly (u_id cu) start_of_week (db st) [0, 1, 2, 3] of
                     Inl err \<Rightarrow> (Abort 500, st)
                   | Inr wk \<Rightarrow>
                       let sd = subject_data (sessions_of (u_id cu) (db st))
                       in (Render_stats cu
                             \<lparr>daily_labels = week_days, daily_values = dv,
                              weekly_labels = map fst wk, weekly_values = map snd wk,
                              subject_labels = map fst sd, subject_values = map snd sd\<rparr>,
                           st))))"

subsection \<open>Routing\<close>

definition handle :: "route \<Rightarrow> request \<Rightarrow> env \<Rightarrow> state \<Rightarrow> response \<times> state" where
  "handle r req e st =
     (case r of
        Login \<Rightarrow> login req e st
      | Verify \<Rightarrow> verify req st
      | Index \<Rightarrow> index req e st
      | Stats \<Rightarrow> (if req_method req = GET then stats e st else (Abort 405, st))
      | Delete i \<Rightarrow> (if req_method req = GET then delete i st else (Abort 405, st))
      | Logout \<Rightarrow> (if req_method req = GET then logout st else (Abort 405, st)))"

subsection \<open>Running requests, and the notions the properties are stated with\<close>

text \<open>
  The server answers one request after the other: \<open>run\<close> feeds a list of requests,
  each with its environment, through \<open>handle\<close>.
\<close>

fun run :: "(route \<times> request \<times> env) list \<Rightarrow> state \<Rightarrow> state" where
  "run [] st = st"
| "run ((r, req, e) # rest) st = run rest (snd (handle r req e st))"

text \<open>
  The stored one-time code of the account of an email: \<open>None\<close> when the email has no
  account, \<open>Some None\<close> when the account's code is NULL.
\<close>

definition otp_of :: "string \<Rightarrow> database \<Rightarrow> string option option" where
  "otp_of E d = map_option current_otp (filter_by_email (Some E) (users d))"

text \<open>
  A login attempt for an email is a POST to \<^verbatim>\<open>/login\<close> with that email; a
  successful verification for it is a request to \<^verbatim>\<open>/verify\<close> that is answered with
  the redirect to \<^verbatim>\<open>index\<close> while that email is the pending one. A list of requests
  leaves an email untouched when none of them is one of the two.
\<close>

definition login_for :: "string \<Rightarrow> route \<Rightarrow> request \<Rightarrow> bool" where
  "login_for E r req \<longleftrightarrow> r = Login \<and> req_method req = POST \<and> map_of (form req) ''email'' = Some E"

definition verified_for :: "string \<Rightarrow> route \<Rightarrow> request \<Rightarrow> state \<Rightarrow> bool" where
  "verified_for E r req st \<longleftrightarrow>
     r = Verify \<and> pending_email st = Some E \<and> fst (verify req st) = Redirect ''index''"

fun untouched :: "string \<Rightarrow> (route \<times> request \<times> env) list \<Rightarrow> state \<Rightarrow> bool" where
  "untouched E [] st = True"
| "untouched E ((r, req, e) # rest) st =
     (\<not> login_for E r req \<and> \<not> verified_for E r req st
      \<and> untouched E rest (snd (handle r req e st)))"

text \<open>
  In a session that only these handlers have written, somebody is logged in only if a
  pending email was stored before, and its account still exists.
\<close>

definition session_ok :: "state \<Rightarrow> bool" where
  "session_ok st \<longleftrightarrow>
     (session_user_id st \<noteq> None \<longrightarrow> filter_by_email (pending_email st) (users (db st)) \<noteq> None)"

text \<open>
  The week of the statistics starts on the Monday on or before today. The raw hours of
  the current week are written from the words of the specification: the hours of the
  account's records whose timestamp lies on one of the seven days from that Monday to the
  Sunday after it. \<open>hours_from_monday\<close> drops the upper end.
\<close>

definition start_of_week :: "date \<Rightarrow> date" where
  "start_of_week d = d - int (weekday d)"




subsection \<open>Example data\<close>

text \<open>
  Two accounts and four records. Day 739923 is Tuesday 2026-11-03, day 739922 the Monday
  before it. Alice is logged in; a code for Bob was requested from the same browser and is
  still pending.
\<close>

definition alice :: user where
  "alice = \<lparr>u_id = 1, email = ''alice@example.org'', current_otp = None\<rparr>"

definition bob :: user where
  "bob = \<lparr>u_id = 2, email = ''bob@example.org'', current_otp = Some ''123456''\<rparr>"

definition bobs_session :: study_session where
  "bobs_session =
     \<lparr>s_id = 2, subject = ''physics'', hours = 3, date = midnight 739923 + 3600000000, user_id = 2\<rparr>"

definition example_sessions :: "study_session list" where
  "example_sessions =
     [\<lparr>s_id = 1, subject = ''maths'', hours = 2, date = midnight 739922 + 36000000000, user_id = 1\<rparr>,
      bobs_session,
      \<lparr>s_id = 3, subject = ''maths'', hours = 1 / 2, date = midnight 739923 + 7200000000, user_id = 1\<rparr>,
      \<lparr>s_id = 4, subject = ''latin'', hours = 1, date = midnight 739916 + 7200000000, user_id = 1\<rparr>]"

definition example_db :: database where
  "example_db = \<lparr>users = [alice, bob], study_sessions = example_sessions\<rparr>"

definition example_state :: state where
  "example_state =
     \<lparr>db = example_db, pending_email = Some ''bob@example.org'', session_user_id = Some 1,
      flashes = []\<rparr>"

definition example_float_of :: "string \<Rightarrow> real option" where
  "example_float_of s = (if s = ''1'' then Some 1 else if s = ''2.5'' then Some (5 / 2) else None)"

definition example_env :: env where
  "example_env =
     \<lparr>rnd = 42, utcnow = midnight 739923 + 43200000000, today = 739923,
      float_of = example_float_of\<rparr>"

definition get_request :: request where
  "get_request = \<lparr>req_method = GET, form = []\<rparr>"

definition post_request :: "(string \<times> string) list \<Rightarrow> request" where
  "post_request f = \<lparr>req_method = POST, form = f\<rparr>"

definition anonymous_state :: state where
  "anonymous_state = example_state\<lparr>pending_email := None, session_user_id := None\<rparr>"



definition wrong_codes :: "request list" where
  "wrong_codes = [post_request [(''otp'', ''000000'')], post_request [(''otp'', ''654321'')]]"

definition other_requests :: "(route \<times> request \<times> env) list" where
  "other_requests =
     [(Index, get_request, example_env),
      (Verify, post_request [(''otp'', ''000000'')], example_env),
      (Login, post_request [(''email'', ''alice@example.org'')], example_env),
      (Index, post_request [(''subject'', ''maths''), (''hours'', ''2.5'')], example_env),
      (Stats, get_request, example_env),
      (Delete 1, get_request, example_env),
      (Logout, get_request, example_env)]"





section \<open>Properties\<close>

subsection \<open>The users table\<close>

lemma filter_by_email_None [simp]: "filter_by_email None us = None"
  by (simp add: filter_by_email_def find_None_iff)

lemma filter_by_email_Some:
  "filter_by_email (Some E) us = Some u \<Longrightarrow> u \<in> set us \<and> email u = E"
  by (auto simp: filter_by_email_def find_Some_iff)

lemma filter_by_email_eq_None:
  "filter_by_email (Some E) us = None \<longleftrightarrow> E \<notin> email ` set us"
  by (auto simp: filter_by_email_def find_None_iff)

lemma filter_by_email_set_otp:
  "filter_by_email x (set_otp i v us) =
     map_option (\<lambda>u. if u_id u = i then u\<lparr>current_otp := v\<rparr> else u) (filter_by_email x us)"
  by (induction us) (auto simp: filter_by_email_def set_otp_def)

lemma filter_by_email_append:
  "filter_by_email x (us @ vs) =
     (case filter_by_email x us of None \<Rightarrow> filter_by_email x vs | Some u \<Rightarrow> Some u)"
  by (induction us) (auto simp: filter_by_email_def)

lemma filter_by_email_single:
  "filter_by_email (Some E) [u] = (if email u = E then Some u else None)"
  by (simp add: filter_by_email_def)

lemma map_email_set_otp [simp]: "map email (set_otp i v us) = map email us"
  by (simp add: set_otp_def)

lemma map_u_id_set_otp [simp]: "map u_id (set_otp i v us) = map u_id us"
  by (simp add: set_otp_def)

lemma length_set_otp [simp]: "length (set_otp i v us) = length us"
  by (simp add: set_otp_def)

lemma fold_max_ge: "(m::nat) \<le> fold max xs m"
  by (induction xs arbitrary: m) (auto intro: order_trans [OF max.cobounded2])

lemma fold_max_upper: "x \<in> set xs \<Longrightarrow> (x::nat) \<le> fold max xs m"
proof (induction xs arbitrary: m)
  case Nil
  then show ?case by simp
next
  case (Cons y ys)
  show ?case
  proof (cases "x = y")
    case True
    have "x \<le> max y m" using True by simp
    also have "\<dots> \<le> fold max ys (max y m)" by (rule fold_max_ge)
    finally show ?thesis by simp
  next
    case False
    with Cons show ?thesis by simp
  qed
qed

lemma next_id_fresh: "x \<in> set ids \<Longrightarrow> x < next_id ids"
  by (simp add: next_id_def fold_max_upper less_Suc_eq_le)

lemma set_otp_fresh: "\<forall>u \<in> set us. u_id u \<noteq> i \<Longrightarrow> set_otp i v us = us"
  by (induction us) (auto simp: set_otp_def)

lemma set_otp_next_id [simp]: "set_otp (next_id (map u_id us)) v us = us"
proof (rule set_otp_fresh, rule ballI)
  fix u assume "u \<in> set us"
  then have "u_id u < next_id (map u_id us)" by (intro next_id_fresh) simp
  then show "u_id u \<noteq> next_id (map u_id us)" by simp
qed

lemma set_otp_append: "set_otp i v (us @ vs) = set_otp i v us @ set_otp i v vs"
  by (simp add: set_otp_def)

lemma distinct_u_id_neq:
  "distinct (map u_id us) \<Longrightarrow> u \<in> set us \<Longrightarrow> u' \<in> set us \<Longrightarrow> email u \<noteq> email u'
     \<Longrightarrow> u_id u \<noteq> u_id u'"
  by (auto simp: distinct_map inj_on_def)

lemma find_distinct_key:
  "distinct (map f xs) \<Longrightarrow> x \<in> set xs \<Longrightarrow> find (\<lambda>y. f y = f x) xs = Some x"
  by (induction xs) (auto simp: image_iff)

subsection \<open>What each handler does to the users table\<close>

lemma login_new:
  assumes "req_method req = POST" "map_of (form req) ''email'' = Some E"
      and "filter_by_email (Some E) (users (db st)) = None"
  shows "login req e st =
           (Redirect ''verify'',
            st\<lparr>db := (db st)\<lparr>users := users (db st) @
                   [\<lparr>u_id = next_id (map u_id (users (db st))), email = E,
                     current_otp = Some (str_int (randint 100000 999999 (rnd e)))\<rparr>]\<rparr>,
               pending_email := Some E\<rparr>)"
  using assms by (simp add: login_def Let_def set_otp_append) (simp add: set_otp_def)

lemma login_existing:
  assumes "req_method req = POST" "map_of (form req) ''email'' = Some E"
      and "filter_by_email (Some E) (users (db st)) = Some u"
  shows "login req e st =
           (Redirect ''verify'',
            st\<lparr>db := (db st)\<lparr>users := set_otp (u_id u)
                    (Some (str_int (randint 100000 999999 (rnd e)))) (users (db st))\<rparr>,
               pending_email := Some E\<rparr>)"
  using assms by (simp add: login_def Let_def)

lemma login_otp_of:
  assumes "req_method req = POST" "map_of (form req) ''email'' = Some E"
  shows "otp_of E (db (snd (login req e st))) =
           Some (Some (str_int (randint 100000 999999 (rnd e))))"
proof (cases "filter_by_email (Some E) (users (db st))")
  case None
  then show ?thesis
    using assms by (simp add: login_new otp_of_def filter_by_email_append filter_by_email_single)
next
  case (Some u)
  then show ?thesis
    using assms by (simp add: login_existing otp_of_def filter_by_email_set_otp)
qed

lemma users_unauthorized [simp]: "db (snd (unauthorized st)) = db st"
  by (simp add: unauthorized_def)

lemma users_index [simp]: "users (db (snd (index req e st))) = users (db st)"
  by (simp add: index_def Let_def split: option.splits)

lemma users_delete [simp]: "users (db (snd (delete i st))) = users (db st)"
  by (simp add: delete_def split: option.splits)

lemma db_logout [simp]: "db (snd (logout st)) = db st"
  by (simp add: logout_def split: option.splits)

lemma db_stats [simp]: "db (snd (stats e st)) = db st"
  by (simp add: stats_def Let_def split: option.splits sum.splits)

lemma users_login_cases:
  "users (db (snd (login req e st))) = users (db st)
   \<or> (\<exists>E u. req_method req = POST \<and> map_of (form req) ''email'' = Some E
          \<and> filter_by_email (Some E) (users (db st)) = Some u
          \<and> users (db (snd (login req e st))) =
              set_otp (u_id u) (Some (str_int (randint 100000 999999 (rnd e)))) (users (db st)))
   \<or> (\<exists>E. req_method req = POST \<and> map_of (form req) ''email'' = Some E
          \<and> filter_by_email (Some E) (users (db st)) = None
          \<and> users (db (snd (login req e st))) = users (db st) @
               [\<lparr>u_id = next_id (map u_id (users (db st))), email = E,
                 current_otp = Some (str_int (randint 100000 999999 (rnd e)))\<rparr>])"
proof (cases "req_method req = POST")
  case False
  then show ?thesis by (simp add: login_def)
next
  case True
  show ?thesis
  proof (cases "map_of (form req) ''email''")
    case None
    with True show ?thesis by (simp add: login_def)
  next
    case (Some E)
    show ?thesis
    proof (cases "filter_by_email (Some E) (users (db st))")
      case None
      with True Some show ?thesis by (simp add: login_new)
    next
      case (Some u)
      with True \<open>map_of (form req) ''email'' = Some E\<close> show ?thesis
        by (simp add: login_existing)
    qed
  qed
qed

lemma users_verify_cases:
  "users (db (snd (verify req st))) = users (db st)
   \<or> (\<exists>u. filter_by_email (pending_email st) (users (db st)) = Some u
          \<and> fst (verify req st) = Redirect ''index''
          \<and> users (db (snd (verify req st))) = set_otp (u_id u) None (users (db st)))"
  by (simp add: verify_def split: option.splits)

lemma verify_success_iff:
  "fst (verify req st) = Redirect ''index'' \<longleftrightarrow>
     req_method req = POST \<and>
     (\<exists>c u. map_of (form req) ''otp'' = Some c
            \<and> filter_by_email (pending_email st) (users (db st)) = Some u
            \<and> current_otp u = Some c)"
  by (auto simp: verify_def split: option.splits)

lemma filter_by_email_set_otp_other:
  assumes "distinct (map u_id us)"
      and "filter_by_email (Some E') us = Some u'"
      and "E' \<noteq> E"
  shows "filter_by_email (Some E) (set_otp (u_id u') v us) = filter_by_email (Some E) us"
proof (cases "filter_by_email (Some E) us")
  case None
  then show ?thesis by (simp add: filter_by_email_set_otp)
next
  case (Some u)
  from Some have u: "u \<in> set us" "email u = E" by (auto dest: filter_by_email_Some)
  from assms(2) have u': "u' \<in> set us" "email u' = E'" by (auto dest: filter_by_email_Some)
  from assms(1) u u' assms(3) have "u_id u \<noteq> u_id u'"
    by (intro distinct_u_id_neq [of us]) auto
  with Some show ?thesis by (simp add: filter_by_email_set_otp)
qed

lemma otp_of_handle_other:
  assumes pk: "distinct (map u_id (users (db st)))"
      and nl: "\<not> (r = Login \<and> req_method req = POST \<and> map_of (form req) ''email'' = Some E)"
      and nv: "\<not> (r = Verify \<and> pending_email st = Some E
                    \<and> fst (verify req st) = Redirect ''index'')"
  shows "otp_of E (db (snd (handle r req e st))) = otp_of E (db st)"
proof (cases r)
  case Login
  from users_login_cases [of req e st] show ?thesis
  proof (elim disjE exE conjE)
    assume "users (db (snd (login req e st))) = users (db st)"
    with Login show ?thesis by (simp add: handle_def otp_of_def)
  next
    fix E' u
    assume h: "req_method req = POST" "map_of (form req) ''email'' = Some E'"
      "filter_by_email (Some E') (users (db st)) = Some u"
      "users (db (snd (login req e st))) =
         set_otp (u_id u) (Some (str_int (randint 100000 999999 (rnd e)))) (users (db st))"
    from nl Login h have "E' \<noteq> E" by auto
    with pk h Login show ?thesis
      by (simp add: handle_def otp_of_def filter_by_email_set_otp_other)
  next
    fix E'
    assume h: "req_method req = POST" "map_of (form req) ''email'' = Some E'"
      "filter_by_email (Some E') (users (db st)) = None"
      "users (db (snd (login req e st))) = users (db st) @
         [\<lparr>u_id = next_id (map u_id (users (db st))), email = E',
           current_otp = Some (str_int (randint 100000 999999 (rnd e)))\<rparr>]"
    from nl Login h have "E' \<noteq> E" by auto
    with h Login show ?thesis
      by (simp add: handle_def otp_of_def filter_by_email_append filter_by_email_single
               split: option.splits)
  qed
next
  case Verify
  from users_verify_cases [of req st] show ?thesis
  proof (elim disjE exE conjE)
    assume "users (db (snd (verify req st))) = users (db st)"
    with Verify show ?thesis by (simp add: handle_def otp_of_def)
  next
    fix u
    assume h: "filter_by_email (pending_email st) (users (db st)) = Some u"
      "fst (verify req st) = Redirect ''index''"
      "users (db (snd (verify req st))) = set_otp (u_id u) None (users (db st))"
    from h(1) obtain E' where E': "pending_email st = Some E'"
      by (cases "pending_email st") simp_all
    with nv Verify h(2) have "E' \<noteq> E" by auto
    with pk h E' Verify show ?thesis
      by (simp add: handle_def otp_of_def filter_by_email_set_otp_other)
  qed
next
  case Index
  then show ?thesis by (simp add: handle_def otp_of_def)
next
  case Stats
  then show ?thesis by (simp add: handle_def otp_of_def)
next
  case (Delete i)
  then show ?thesis by (simp add: handle_def otp_of_def)
next
  case Logout
  then show ?thesis by (simp add: handle_def otp_of_def)
qed

lemma users_handle_cases:
  "users (db (snd (handle r req e st))) = users (db st)
   \<or> (\<exists>i v. users (db (snd (handle r req e st))) = set_otp i v (users (db st)))
   \<or> (\<exists>E v. E \<notin> email ` set (users (db st))
          \<and> users (db (snd (handle r req e st))) = users (db st) @
               [\<lparr>u_id = next_id (map u_id (users (db st))), email = E, current_otp = v\<rparr>])"
proof (cases r)
  case Login
  from users_login_cases [of req e st] Login show ?thesis
    by (auto simp: handle_def filter_by_email_eq_None)
next
  case Verify
  from users_verify_cases [of req st] Verify show ?thesis
    by (auto simp: handle_def)
qed (simp_all add: handle_def)

lemma handle_emails_distinct:
  assumes "distinct (map email (users (db st)))"
  shows "distinct (map email (users (db (snd (handle r req e st)))))"
  using users_handle_cases [of r req e st] assms by auto

lemma handle_u_ids_distinct:
  assumes "distinct (map u_id (users (db st)))"
  shows "distinct (map u_id (users (db (snd (handle r req e st)))))"
proof -
  have "next_id (map u_id (users (db st))) \<notin> u_id ` set (users (db st))"
    using next_id_fresh [of _ "map u_id (users (db st))"] by fastforce
  with users_handle_cases [of r req e st] assms show ?thesis by auto
qed

lemma run_u_ids_distinct:
  "distinct (map u_id (users (db st))) \<Longrightarrow> distinct (map u_id (users (db (run reqs st))))"
  by (induction reqs st rule: run.induct) (simp_all add: handle_u_ids_distinct)

lemma run_emails_distinct:
  "distinct (map email (users (db st))) \<Longrightarrow> distinct (map email (users (db (run reqs st))))"
  by (induction reqs st rule: run.induct) (simp_all add: handle_emails_distinct)

lemma run_untouched:
  "distinct (map u_id (users (db st))) \<Longrightarrow> untouched E reqs st
     \<Longrightarrow> otp_of E (db (run reqs st)) = otp_of E (db st)"
proof (induction reqs st rule: run.induct)
  case (1 st)
  then show ?case by simp
next
  case (2 r req e rest st)
  from 2 have "otp_of E (db (run rest (snd (handle r req e st)))) =
      otp_of E (db (snd (handle r req e st)))"
    by (simp add: handle_u_ids_distinct)
  also from 2 have "\<dots> = otp_of E (db st)"
    by (intro otp_of_handle_other) (simp_all add: login_for_def verified_for_def)
  finally show ?case by simp
qed

lemma verified_otp_of:
  assumes "verified_for E r req st"
  shows "otp_of E (db (snd (handle r req e st))) = Some None"
  using assms
  by (auto simp: verified_for_def handle_def verify_def otp_of_def filter_by_email_set_otp
           split: option.splits if_splits)

lemma verify_wrong:
  assumes "pending_email st = Some E"
      and "filter_by_email (Some E) (users (db st)) = Some u"
      and "current_otp u = Some C"
      and "req_method req = POST"
      and "map_of (form req) ''otp'' = Some entered"
      and "entered \<noteq> C"
  shows "verify req st =
           (Render_verify, st\<lparr>flashes := flashes st @ [''Invalid OTP. Please try again.'']\<rparr>)"
  using assms by (simp add: verify_def)

lemma verify_wrong_fold:
  assumes "pending_email st = Some E"
      and "filter_by_email (Some E) (users (db st)) = Some u"
      and "current_otp u = Some C"
      and "\<forall>q \<in> set qs. req_method q = POST \<and> (\<exists>c. map_of (form q) ''otp'' = Some c \<and> c \<noteq> C)"
  shows "db (fold (\<lambda>q s. snd (verify q s)) qs st) = db st
       \<and> session_user_id (fold (\<lambda>q s. snd (verify q s)) qs st) = session_user_id st
       \<and> pending_email (fold (\<lambda>q s. snd (verify q s)) qs st) = pending_email st"
  using assms
proof (induction qs arbitrary: st)
  case Nil
  then show ?case by simp
next
  case (Cons q qs)
  from Cons.prems(4) obtain c where q: "req_method q = POST" "map_of (form q) ''otp'' = Some c" "c \<noteq> C"
    by auto
  let ?st = "st\<lparr>flashes := flashes st @ [''Invalid OTP. Please try again.'']\<rparr>"
  have v: "verify q st = (Render_verify, ?st)"
    using Cons.prems(1-3) q by (rule verify_wrong)
  have "db (fold (\<lambda>q s. snd (verify q s)) qs ?st) = db ?st
       \<and> session_user_id (fold (\<lambda>q s. snd (verify q s)) qs ?st) = session_user_id ?st
       \<and> pending_email (fold (\<lambda>q s. snd (verify q s)) qs ?st) = pending_email ?st"
    using Cons.prems by (intro Cons.IH) simp_all
  with v show ?case by simp
qed

lemma session_ok_login: "session_ok st \<Longrightarrow> session_ok (snd (login req e st))"
proof (cases "req_method req = POST")
  case False
  assume "session_ok st"
  with False show ?thesis by (simp add: login_def)
next
  case True
  assume ok: "session_ok st"
  show ?thesis
  proof (cases "map_of (form req) ''email''")
    case None
    with True ok show ?thesis by (simp add: login_def)
  next
    case (Some E)
    show ?thesis
    proof (cases "filter_by_email (Some E) (users (db st))")
      case None
      with True Some show ?thesis
        by (simp add: login_new session_ok_def filter_by_email_append filter_by_email_single)
    next
      case (Some u)
      with True \<open>map_of (form req) ''email'' = Some E\<close> show ?thesis
        by (simp add: login_existing session_ok_def filter_by_email_set_otp)
    qed
  qed
qed

lemma session_ok_handle: "session_ok st \<Longrightarrow> session_ok (snd (handle r req e st))"
proof (cases r)
  case Login
  assume "session_ok st"
  with Login show ?thesis by (simp add: handle_def session_ok_login)
qed (auto simp: session_ok_def handle_def verify_def index_def delete_def logout_def stats_def
       unauthorized_def Let_def filter_by_email_set_otp split: option.splits sum.splits)

lemma session_ok_run: "session_ok st \<Longrightarrow> session_ok (run reqs st)"
  by (induction reqs st rule: run.induct) (simp_all add: session_ok_handle)

subsection \<open>Decimal strings\<close>




subsection \<open>Dates, buckets and the subject dictionary\<close>






lemma length_fill_buckets [simp]: "length (fill_buckets ss dv) = length dv"
  unfolding fill_buckets_def by (induction ss arbitrary: dv) (simp_all add: Let_def)















subsection \<open>The example data, evaluated\<close>

lemmas ex_defs = alice_def bob_def bobs_session_def example_sessions_def example_db_def example_state_def
  example_float_of_def example_env_def get_request_def post_request_def

lemmas stats_defs = stats_def Let_def sessions_of_def subject_data_def
  current_week_sessions_def week_sessions_def fill_buckets_def date_plus_days_def
  weekday_def date_of_def min_ordinal_def max_ordinal_def end_of_day_def midnight_def
  usec_per_day_def

lemma replicate_7: "replicate 7 x = [x, x, x, x, x, x, x]"
  by (simp add: numeral_eq_Suc)


lemma example_current_user: "current_user example_state = Some alice"
  by (simp add: current_user_def load_user_def ex_defs)



lemma example_untouched: "untouched ''bob@example.org'' other_requests example_state"
  by (simp add: other_requests_def login_for_def verified_for_def handle_def verify_def
        index_def login_def logout_def delete_def unauthorized_def Let_def current_user_def
        load_user_def filter_by_email_def set_otp_def next_id_def sessions_of_def
        order_by_date_desc_def stats_defs replicate_7 ex_defs)

section \<open>The claims\<close>

text \<open>
  C1. For a logged-in account, the listing that \<^verbatim>\<open>index\<close> renders on a GET holds
  exactly the study records of the table whose owner is that account: every listed record
  is owned by it, and no record owned by another account is listed, whatever records the
  other accounts hold.
\<close>

theorem index_lists_own_records_only:
  assumes "current_user st = Some a"
      and "req_method req = GET"
  shows "\<exists>listing total_hours.
           index req e st = (Render_index listing total_hours a, st)
           \<and> set listing = {s \<in> set (study_sessions (db st)). user_id s = u_id a}
           \<and> (\<forall>s \<in> set listing. user_id s = u_id a)
           \<and> (\<forall>s \<in> set (study_sessions (db st)). user_id s \<noteq> u_id a \<longrightarrow> s \<notin> set listing)"
  using assms by (auto simp: index_def Let_def order_by_date_desc_def sessions_of_def)

theorem index_lists_own_records_only_witness:
  "current_user example_state = Some alice \<and> req_method get_request = GET
   \<and> (\<exists>listing total_hours.
         index get_request example_env example_state =
           (Render_index listing total_hours alice, example_state)
         \<and> set listing = {s \<in> set (study_sessions (db example_state)). user_id s = u_id alice}
         \<and> (\<forall>s \<in> set listing. user_id s = u_id alice)
         \<and> (\<forall>s \<in> set (study_sessions (db example_state)).
               user_id s \<noteq> u_id alice \<longrightarrow> s \<notin> set listing))"
proof -
  have h1: "current_user example_state = Some alice" by (rule example_current_user)
  have h2: "req_method get_request = GET" by (simp add: get_request_def)
  from h1 h2 index_lists_own_records_only [OF h1 h2, of example_env] show ?thesis by blast
qed

text \<open>
  C2. When a logged-in account asks to delete an existing record that another account
  owns, \<^verbatim>\<open>delete\<close> answers with the redirect to the listing and returns the state as
  it was: the record stays, and no other record is touched. The ids of the table are
  distinct, as its primary key has them.
\<close>

theorem delete_other_owner_noop:
  assumes "current_user st = Some a"
      and "distinct (map s_id (study_sessions (db st)))"
      and "r \<in> set (study_sessions (db st))"
      and "user_id r \<noteq> u_id a"
  shows "delete (s_id r) st = (Redirect ''/'', st)
       \<and> study_sessions (db (snd (delete (s_id r) st))) = study_sessions (db st)"
proof -
  from assms(2,3) have "find (\<lambda>s. s_id s = s_id r) (study_sessions (db st)) = Some r"
    by (rule find_distinct_key)
  with assms(1,4) show ?thesis by (simp add: delete_def)
qed

theorem delete_other_owner_noop_witness:
  "current_user example_state = Some alice
   \<and> distinct (map s_id (study_sessions (db example_state)))
   \<and> bobs_session \<in> set (study_sessions (db example_state))
   \<and> user_id bobs_session \<noteq> u_id alice
   \<and> delete (s_id bobs_session) example_state = (Redirect ''/'', example_state)
   \<and> study_sessions (db (snd (delete (s_id bobs_session) example_state))) =
       study_sessions (db example_state)"
proof -
  have h1: "current_user example_state = Some alice" by (rule example_current_user)
  have h2: "distinct (map s_id (study_sessions (db example_state)))" by (simp add: ex_defs)
  have h3: "bobs_session \<in> set (study_sessions (db example_state))"
    by (simp add: example_state_def example_db_def example_sessions_def)
  have h4: "user_id bobs_session \<noteq> u_id alice" by (simp add: ex_defs)
  from h1 h2 h3 h4 delete_other_owner_noop [OF h1 h2 h3 h4] show ?thesis by blast
qed

text \<open>
  C3. Let the pending email have an account whose stored code is \<open>C\<close>. Every POST to
  \<^verbatim>\<open>/verify\<close> with a code other than \<open>C\<close> renders the verify page again, logs nobody
  in (the logged-in user of the session is who it was) and leaves the database as it was.
  After any number of such attempts the database and the session's user are still
  unchanged, the stored code is still \<open>C\<close>, and submitting \<open>C\<close> then logs the account
  in: there is no retry limit and no lockout.
\<close>

theorem verify_wrong_code:
  assumes "pending_email st = Some E"
      and "filter_by_email (Some E) (users (db st)) = Some u"
      and "current_otp u = Some C"
      and "\<forall>q \<in> set qs. req_method q = POST \<and> (\<exists>c. map_of (form q) ''otp'' = Some c \<and> c \<noteq> C)"
      and "st' = fold (\<lambda>q s. snd (verify q s)) qs st"
  shows "(\<forall>q \<in> set qs. fst (verify q st) = Render_verify
            \<and> db (snd (verify q st)) = db st
            \<and> session_user_id (snd (verify q st)) = session_user_id st)
       \<and> db st' = db st
       \<and> session_user_id st' = session_user_id st
       \<and> otp_of E (db st') = Some (Some C)
       \<and> verify \<lparr>req_method = POST, form = [(''otp'', C)]\<rparr> st' =
           (Redirect ''index'',
            st'\<lparr>db := (db st')\<lparr>users := set_otp (u_id u) None (users (db st'))\<rparr>,
                session_user_id := Some (u_id u)\<rparr>)"
proof -
  have one: "fst (verify q st) = Render_verify \<and> db (snd (verify q st)) = db st
      \<and> session_user_id (snd (verify q st)) = session_user_id st" if "q \<in> set qs" for q
  proof -
    from that assms(4) obtain c where
      "req_method q = POST" "map_of (form q) ''otp'' = Some c" "c \<noteq> C" by auto
    with assms(1-3) have "verify q st =
        (Render_verify, st\<lparr>flashes := flashes st @ [''Invalid OTP. Please try again.'']\<rparr>)"
      by (rule verify_wrong)
    then show ?thesis by simp
  qed
  from verify_wrong_fold [OF assms(1-4)] assms(5)
  have same: "db st' = db st" "session_user_id st' = session_user_id st"
    "pending_email st' = pending_email st" by simp_all
  have otp: "otp_of E (db st') = Some (Some C)"
    using assms(2,3) same by (simp add: otp_of_def)
  have ok: "verify \<lparr>req_method = POST, form = [(''otp'', C)]\<rparr> st' =
      (Redirect ''index'',
       st'\<lparr>db := (db st')\<lparr>users := set_otp (u_id u) None (users (db st'))\<rparr>,
           session_user_id := Some (u_id u)\<rparr>)"
    using assms(1-3) same by (simp add: verify_def)
  from one same otp ok show ?thesis by blast
qed

theorem verify_wrong_code_witness:
  "pending_email example_state = Some ''bob@example.org''
   \<and> filter_by_email (Some ''bob@example.org'') (users (db example_state)) = Some bob
   \<and> current_otp bob = Some ''123456''
   \<and> list_all (\<lambda>q. req_method q = POST
                     \<and> (\<exists>c. map_of (form q) ''otp'' = Some c \<and> c \<noteq> ''123456'')) wrong_codes
   \<and> db (fold (\<lambda>q s. snd (verify q s)) wrong_codes example_state) = db example_state
   \<and> session_user_id (fold (\<lambda>q s. snd (verify q s)) wrong_codes example_state) =
       session_user_id example_state
   \<and> otp_of ''bob@example.org'' (db (fold (\<lambda>q s. snd (verify q s)) wrong_codes example_state)) =
       Some (Some ''123456'')"
proof -
  have h1: "pending_email example_state = Some ''bob@example.org''"
    by (simp add: example_state_def)
  have h2: "filter_by_email (Some ''bob@example.org'') (users (db example_state)) = Some bob"
    by (simp add: filter_by_email_def ex_defs)
  have h3: "current_otp bob = Some ''123456''" by (simp add: bob_def)
  have l4: "list_all (\<lambda>q. req_method q = POST
      \<and> (\<exists>c. map_of (form q) ''otp'' = Some c \<and> c \<noteq> ''123456'')) wrong_codes"
    by (simp add: wrong_codes_def post_request_def)
  then have h4: "\<forall>q \<in> set wrong_codes.
      req_method q = POST \<and> (\<exists>c. map_of (form q) ''otp'' = Some c \<and> c \<noteq> ''123456'')"
    by (simp only: list_all_iff)
  from h1 h2 h3 l4 verify_wrong_code [OF h1 h2 h3 h4 refl] show ?thesis by blast
qed




text \<open>
  C5. With the ids of the users table distinct: a login attempt for an email stores the
  newly generated code as the code of that email's account; a successful verification for
  the email sets the stored code to NULL; every other request, whatever the clocks say,
  leaves the stored code of the email as it was, and so does every list of requests that
  holds no login attempt and no successful verification for the email. The code never
  expires.
\<close>

theorem otp_overwritten_cleared_kept:
  assumes "distinct (map u_id (users (db st)))"
  shows "(login_for E r req \<longrightarrow>
            otp_of E (db (snd (handle r req e st))) =
              Some (Some (str_int (randint 100000 999999 (rnd e)))))
       \<and> (verified_for E r req st \<longrightarrow> otp_of E (db (snd (handle r req e st))) = Some None)
       \<and> (\<not> login_for E r req \<and> \<not> verified_for E r req st \<longrightarrow>
            otp_of E (db (snd (handle r req e st))) = otp_of E (db st))
       \<and> (untouched E reqs st \<longrightarrow> otp_of E (db (run reqs st)) = otp_of E (db st))"
proof (intro conjI impI)
  assume "login_for E r req"
  then show "otp_of E (db (snd (handle r req e st))) =
      Some (Some (str_int (randint 100000 999999 (rnd e))))"
    by (simp add: login_for_def handle_def login_otp_of)
next
  assume "verified_for E r req st"
  then show "otp_of E (db (snd (handle r req e st))) = Some None"
    by (rule verified_otp_of)
next
  assume "\<not> login_for E r req \<and> \<not> verified_for E r req st"
  with assms show "otp_of E (db (snd (handle r req e st))) = otp_of E (db st)"
    by (intro otp_of_handle_other) (simp_all add: login_for_def verified_for_def)
next
  assume "untouched E reqs st"
  with assms show "otp_of E (db (run reqs st)) = otp_of E (db st)"
    by (rule run_untouched)
qed

theorem otp_overwritten_cleared_kept_witness:
  "distinct (map u_id (users (db example_state)))
   \<and> login_for ''bob@example.org'' Login (post_request [(''email'', ''bob@example.org'')])
   \<and> otp_of ''bob@example.org''
        (db (snd (handle Login (post_request [(''email'', ''bob@example.org'')])
                    example_env example_state))) = Some (Some ''100042'')
   \<and> verified_for ''bob@example.org'' Verify (post_request [(''otp'', ''123456'')]) example_state
   \<and> otp_of ''bob@example.org''
        (db (snd (handle Verify (post_request [(''otp'', ''123456'')])
                    example_env example_state))) = Some None
   \<and> untouched ''bob@example.org'' other_requests example_state
   \<and> otp_of ''bob@example.org'' (db (run other_requests example_state)) = Some (Some ''123456'')"
proof -
  have pk: "distinct (map u_id (users (db example_state)))" by (simp add: ex_defs)
  have l: "login_for ''bob@example.org'' Login (post_request [(''email'', ''bob@example.org'')])"
    by (simp add: login_for_def post_request_def)
  have v: "verified_for ''bob@example.org'' Verify (post_request [(''otp'', ''123456'')])
      example_state"
    by (simp add: verified_for_def verify_def filter_by_email_def ex_defs)
  have u: "untouched ''bob@example.org'' other_requests example_state"
    by (rule example_untouched)
  have c: "str_int (randint 100000 999999 (rnd example_env)) = ''100042''"
    by (simp add: example_env_def str_int_def randint_def str_nat.simps digit_char_def)
  have o: "otp_of ''bob@example.org'' (db example_state) = Some (Some ''123456'')"
    by (simp add: otp_of_def filter_by_email_def ex_defs)
  from otp_overwritten_cleared_kept [OF pk, of "''bob@example.org''" Login
      "post_request [(''email'', ''bob@example.org'')]" example_env other_requests] l c u o
  have 1: "otp_of ''bob@example.org''
        (db (snd (handle Login (post_request [(''email'', ''bob@example.org'')])
                    example_env example_state))) = Some (Some ''100042'')"
    and 2: "otp_of ''bob@example.org'' (db (run other_requests example_state)) =
        Some (Some ''123456'')"
    by simp_all
  from otp_overwritten_cleared_kept [OF pk, of "''bob@example.org''" Verify
      "post_request [(''otp'', ''123456'')]" example_env "[]"] v
  have 3: "otp_of ''bob@example.org''
        (db (snd (handle Verify (post_request [(''otp'', ''123456'')])
                    example_env example_state))) = Some None"
    by simp
  from pk l v u 1 2 3 show ?thesis by blast
qed



text \<open>
  C7. If no two accounts share an email, then no two do after any request, nor after
  any list of requests. A login attempt for an email without an account appends exactly
  one account, with that email, to the table, in the login request itself; a login attempt
  for an email that has an account leaves the emails and the ids of the table as they
  were.
\<close>

theorem one_account_per_email:
  assumes "distinct (map email (users (db st)))"
  shows "distinct (map email (users (db (snd (handle r req e st)))))
       \<and> distinct (map email (users (db (run reqs st))))
       \<and> (login_for E r req \<and> E \<notin> email ` set (users (db st)) \<longrightarrow>
            (\<exists>u. users (db (snd (handle r req e st))) = users (db st) @ [u] \<and> email u = E))
       \<and> (login_for E r req \<and> E \<in> email ` set (users (db st)) \<longrightarrow>
            map email (users (db (snd (handle r req e st)))) = map email (users (db st))
            \<and> map u_id (users (db (snd (handle r req e st)))) = map u_id (users (db st)))"
proof (intro conjI impI)
  show "distinct (map email (users (db (snd (handle r req e st)))))"
    using assms by (rule handle_emails_distinct)
  show "distinct (map email (users (db (run reqs st))))"
    using assms by (rule run_emails_distinct)
next
  assume h: "login_for E r req \<and> E \<notin> email ` set (users (db st))"
  then have "filter_by_email (Some E) (users (db st)) = None"
    by (simp add: filter_by_email_eq_None)
  with h show "\<exists>u. users (db (snd (handle r req e st))) = users (db st) @ [u] \<and> email u = E"
    by (simp add: login_for_def handle_def login_new)
next
  assume h: "login_for E r req \<and> E \<in> email ` set (users (db st))"
  then obtain u where u: "filter_by_email (Some E) (users (db st)) = Some u"
    using filter_by_email_eq_None [of E "users (db st)"] by auto
  with h show "map email (users (db (snd (handle r req e st)))) = map email (users (db st))"
    by (simp add: login_for_def handle_def login_existing)
  from u h show "map u_id (users (db (snd (handle r req e st)))) = map u_id (users (db st))"
    by (simp add: login_for_def handle_def login_existing)
qed

theorem one_account_per_email_witness:
  "distinct (map email (users (db example_state)))
   \<and> login_for ''carol@example.org'' Login (post_request [(''email'', ''carol@example.org'')])
   \<and> ''carol@example.org'' \<notin> email ` set (users (db example_state))
   \<and> (\<exists>u. users (db (snd (handle Login (post_request [(''email'', ''carol@example.org'')])
                             example_env example_state))) = users (db example_state) @ [u]
          \<and> email u = ''carol@example.org'')
   \<and> login_for ''bob@example.org'' Login (post_request [(''email'', ''bob@example.org'')])
   \<and> ''bob@example.org'' \<in> email ` set (users (db example_state))
   \<and> map email (users (db (snd (handle Login (post_request [(''email'', ''bob@example.org'')])
                                  example_env example_state)))) =
       map email (users (db example_state))
   \<and> distinct (map email (users (db (run other_requests example_state))))"
proof -
  have d: "distinct (map email (users (db example_state)))" by (simp add: ex_defs)
  have l1: "login_for ''carol@example.org'' Login
      (post_request [(''email'', ''carol@example.org'')])"
    by (simp add: login_for_def post_request_def)
  have n1: "''carol@example.org'' \<notin> email ` set (users (db example_state))"
    by (simp add: ex_defs)
  have l2: "login_for ''bob@example.org'' Login (post_request [(''email'', ''bob@example.org'')])"
    by (simp add: login_for_def post_request_def)
  have n2: "''bob@example.org'' \<in> email ` set (users (db example_state))"
    by (simp add: ex_defs)
  from one_account_per_email [OF d, of Login "post_request [(''email'', ''carol@example.org'')]"
      example_env other_requests "''carol@example.org''"] l1 n1
  have 1: "\<exists>u. users (db (snd (handle Login (post_request [(''email'', ''carol@example.org'')])
                             example_env example_state))) = users (db example_state) @ [u]
          \<and> email u = ''carol@example.org''"
    and 2: "distinct (map email (users (db (run other_requests example_state))))"
    by blast+
  from one_account_per_email [OF d, of Login "post_request [(''email'', ''bob@example.org'')]"
      example_env "[]" "''bob@example.org''"] l2 n2
  have 3: "map email (users (db (snd (handle Login (post_request [(''email'', ''bob@example.org'')])
                                  example_env example_state)))) =
       map email (users (db example_state))"
    by blast
  from d l1 n1 l2 n2 1 2 3 show ?thesis by blast
qed



text \<open>
  C9. When the session has no pending email, or a pending email that no account has,
  \<^verbatim>\<open>verify\<close> never redirects to the index: it answers 400 or renders the verify page,
  leaves the database as it was and the session's user as it was; in a session written by
  these handlers alone nobody is logged in afterwards. A missing pending email matches no
  account, because no stored account has a NULL email.
\<close>

theorem verify_without_account:
  assumes "pending_email st = None
           \<or> (\<exists>E. pending_email st = Some E \<and> E \<notin> email ` set (users (db st)))"
  shows "verify req st \<in> {(Abort 400, st), (Render_verify, st),
             (Render_verify, st\<lparr>flashes := flashes st @ [''Invalid OTP. Please try again.'']\<rparr>)}
       \<and> db (snd (verify req st)) = db st
       \<and> session_user_id (snd (verify req st)) = session_user_id st
       \<and> (session_ok st \<longrightarrow> session_user_id (snd (verify req st)) = None)
       \<and> filter_by_email None (users (db st)) = None"
proof -
  from assms have none: "filter_by_email (pending_email st) (users (db st)) = None"
    by (auto simp: filter_by_email_eq_None)
  then have v: "verify req st \<in> {(Abort 400, st), (Render_verify, st),
      (Render_verify, st\<lparr>flashes := flashes st @ [''Invalid OTP. Please try again.'']\<rparr>)}"
    by (simp add: verify_def split: option.splits)
  then have same: "db (snd (verify req st)) = db st"
    "session_user_id (snd (verify req st)) = session_user_id st" by auto
  from none have "session_ok st \<longrightarrow> session_user_id st = None"
    by (simp add: session_ok_def)
  with v same show ?thesis by simp
qed

theorem verify_without_account_witness:
  "(pending_email anonymous_state = None
    \<or> (\<exists>E. pending_email anonymous_state = Some E
            \<and> E \<notin> email ` set (users (db anonymous_state))))
   \<and> session_ok anonymous_state
   \<and> db (snd (verify (post_request [(''otp'', ''123456'')]) anonymous_state)) = db anonymous_state
   \<and> session_user_id (snd (verify (post_request [(''otp'', ''123456'')]) anonymous_state)) = None"
proof -
  have h1: "pending_email anonymous_state = None
      \<or> (\<exists>E. pending_email anonymous_state = Some E
              \<and> E \<notin> email ` set (users (db anonymous_state)))"
    by (simp add: anonymous_state_def)
  have h2: "session_ok anonymous_state" by (simp add: session_ok_def anonymous_state_def)
  from h1 h2 verify_without_account [OF h1, of "post_request [(''otp'', ''123456'')]"]
  show ?thesis by blast
qed



end
